theory Spec2Isabelle
  imports Main
begin

section \<open>Path names\<close>

text \<open>
  The backup engine of \<^verbatim>\<open>Client.py\<close> works on POSIX path names. A path is a
  \<^typ>\<open>string\<close>; the functions of \<^verbatim>\<open>os.path\<close> that the engine calls are
  written out here after \<^verbatim>\<open>posixpath.py\<close>, since the exclusion test of the engine
  is nothing but a composition of them.
\<close>

text \<open>\<^verbatim>\<open>str.startswith\<close>.\<close>

fun startswith :: "'a list \<Rightarrow> 'a list \<Rightarrow> bool" where
  "startswith s [] = True"
| "startswith [] (p # ps) = False"
| "startswith (c # cs) (p # ps) = (c = p \<and> startswith cs ps)"

text \<open>\<^verbatim>\<open>str.endswith('/')\<close>.\<close>

definition ends_with_sep :: "string \<Rightarrow> bool" where
  "ends_with_sep s = (case rev s of [] \<Rightarrow> False | c # _ \<Rightarrow> c = CHR ''/'')"

text \<open>\<^verbatim>\<open>str.split('/')\<close>: the pieces between separators, empty pieces included.\<close>

fun split_sep :: "string \<Rightarrow> string list" where
  "split_sep [] = [[]]"
| "split_sep (c # cs) =
     (if c = CHR ''/'' then [] # split_sep cs
      else (case split_sep cs of [] \<Rightarrow> [[c]] | w # ws \<Rightarrow> (c # w) # ws))"

text \<open>\<^verbatim>\<open>'/'.join(comps)\<close>.\<close>

fun sep_join :: "string list \<Rightarrow> string" where
  "sep_join [] = []"
| "sep_join [w] = w"
| "sep_join (w # v # ws) = w @ ''/'' @ sep_join (v # ws)"

text \<open>
  \<^verbatim>\<open>os.path.join(a, b)\<close>: an absolute second part replaces the first; otherwise the
  parts are glued with one separator, unless the first is empty or ends with one.
\<close>

definition join :: "string \<Rightarrow> string \<Rightarrow> string" where
  "join a b =
     (if startswith b ''/'' then b
      else if a = [] \<or> ends_with_sep a then a @ b
      else a @ ''/'' @ b)"

text \<open>
  \<^verbatim>\<open>os.path.normpath\<close>. One or two leading slashes are kept, three or more become
  one; empty and \<^verbatim>\<open>.\<close> components are dropped; \<^verbatim>\<open>..\<close> removes the component before it,
  is dropped at the root and is kept at the start of a relative path.
\<close>

definition initial_slashes :: "string \<Rightarrow> nat" where
  "initial_slashes path =
     (if startswith path ''/'' then
        (if startswith path ''//'' \<and> \<not> startswith path ''///'' then 2 else 1)
      else 0)"

definition norm_step :: "nat \<Rightarrow> string list \<Rightarrow> string \<Rightarrow> string list" where
  "norm_step init new_comps part =
     (if part = [] \<or> part = ''.'' then new_comps
      else if part \<noteq> ''..'' \<or> (init = 0 \<and> new_comps = [])
              \<or> (new_comps \<noteq> [] \<and> last new_comps = ''..'')
        then new_comps @ [part]
      else if new_comps \<noteq> [] then butlast new_comps
      else new_comps)"

definition normpath :: "string \<Rightarrow> string" where
  "normpath path =
     (if path = [] then ''.''
      else
        let init = initial_slashes path;
            comps = foldl (norm_step init) [] (split_sep path);
            p = replicate init CHR ''/'' @ sep_join comps
        in if p = [] then ''.'' else p)"

text \<open>\<^verbatim>\<open>os.path.basename\<close>: what follows the last separator.\<close>

definition basename :: "string \<Rightarrow> string" where
  "basename p = last (split_sep p)"

text \<open>
  \<^verbatim>\<open>os.path.abspath\<close> and \<^verbatim>\<open>os.path.relpath\<close>, with the working directory of the
  process as a parameter. \<^verbatim>\<open>relpath\<close> raises \<^verbatim>\<open>ValueError\<close> on an empty path, which
  is the value \<^const>\<open>None\<close> here.
\<close>

definition abspath :: "string \<Rightarrow> string \<Rightarrow> string" where
  "abspath cwd p = normpath (join cwd p)"

fun commonprefix :: "'a list \<Rightarrow> 'a list \<Rightarrow> 'a list" where
  "commonprefix (x # xs) (y # ys) = (if x = y then x # commonprefix xs ys else [])"
| "commonprefix _ _ = []"

definition segments :: "string \<Rightarrow> string list" where
  "segments p = filter (\<lambda>x. x \<noteq> []) (split_sep p)"

definition relpath :: "string \<Rightarrow> string \<Rightarrow> string \<Rightarrow> string option" where
  "relpath cwd path start =
     (if path = [] then None
      else
        let start_list = segments (abspath cwd start);
            path_list = segments (abspath cwd path);
            i = length (commonprefix start_list path_list);
            rel_list = replicate (length start_list - i) ''..'' @ drop i path_list
        in if rel_list = [] then Some ''.'' else Some (sep_join rel_list))"

section \<open>The exclusion test\<close>

text \<open>
  \<^verbatim>\<open>create_tarball_with_progress\<close> first normalises the exclusion list,
  \<^verbatim>\<open>excluded_normalized_paths = {os.path.normpath(d) for d in exclude_dirs}\<close>, and then
  tests every directory and file it meets (lines 155, 162 and 181) with
  \<^verbatim>\<open>n in excluded_normalized_paths or any(n.startswith(excluded) for excluded in
  excluded_normalized_paths)\<close>, where \<^verbatim>\<open>n\<close> is the normalised path. The set is a list
  here; the test only asks for membership.
\<close>

definition excluded_normalized_paths :: "string list \<Rightarrow> string list" where
  "excluded_normalized_paths exclude_dirs = map normpath exclude_dirs"

definition path_excluded :: "string list \<Rightarrow> string \<Rightarrow> bool" where
  "path_excluded excluded p =
     (let n = normpath p
      in n \<in> set excluded \<or> list_ex (\<lambda>e. startswith n e) excluded)"

text \<open>
  The test as the specification words it: the path equals an entry, or descends from one,
  compared segment by segment.
\<close>

definition spec_isExcluded :: "string list \<Rightarrow> string \<Rightarrow> bool" where
  "spec_isExcluded excluded p =
     list_ex (\<lambda>e. startswith (segments (normpath p)) (segments e)) excluded"

section \<open>The source tree\<close>

text \<open>
  What \<^verbatim>\<open>os.walk\<close> finds under a path: regular files and directories (symbolic links
  are not followed by the engine and are left out). A file carries what
  \<^verbatim>\<open>os.access(p, os.R_OK)\<close> and \<^verbatim>\<open>os.path.getsize(p)\<close> answer, and its content, of
  any type \<^typ>\<open>'c\<close>; a directory carries its read permission and its entries by name.
  Directory entries are listed in the order of the list. The tree is not changed while a
  backup runs, and the archive files of the output directory are kept apart from it.
\<close>

datatype 'c node = File bool nat 'c | Dir bool "(string \<times> 'c node) list"

fun is_dir :: "'c node \<Rightarrow> bool" where
  "is_dir (Dir r es) = True"
| "is_dir (File r sz c) = False"

fun access_R_OK :: "'c node \<Rightarrow> bool" where
  "access_R_OK (Dir r es) = r"
| "access_R_OK (File r sz c) = r"

fun getsize :: "'c node \<Rightarrow> nat" where
  "getsize (File r sz c) = sz"
| "getsize (Dir r es) = 0"

definition FILE_SIZE_LIMIT :: nat where
  "FILE_SIZE_LIMIT = 500 * 1024 * 1024"

text \<open>
  The constants of the module. \<^verbatim>\<open>os.path.expanduser("~")\<close> is the parameter
  \<open>home\<close>.
\<close>

definition BACKUP_DIR :: "string \<Rightarrow> string" where
  "BACKUP_DIR home = join home ''BackupSystemBackups''"

definition EXCLUDE_DIRS :: "string \<Rightarrow> string list" where
  "EXCLUDE_DIRS home =
     [''/tmp'', ''/proc'', ''/run'', ''/sys'', ''/dev'', ''/mnt'', ''/media'',
      BACKUP_DIR home, ''/var/log'', ''/var/tmp'']"

section \<open>Scanning\<close>

text \<open>
  \<^verbatim>\<open>scan_directory(path)\<close> walks the tree top-down. At every directory it visits it
  keeps the subdirectories that pass the test of lines 113-114, counts them, and counts
  the files that pass the test of line 122, which is \<^verbatim>\<open>startswith\<close> alone. Its
  exclusion list is always the module's \<^verbatim>\<open>EXCLUDE_DIRS\<close>. \<^verbatim>\<open>os.walk\<close> reports no
  error of the file system: a directory that cannot be listed yields nothing. On a path
  with a NUL character \<^verbatim>\<open>os.scandir\<close> raises \<^verbatim>\<open>ValueError\<close>, which \<^verbatim>\<open>os.walk\<close>
  does not catch; \<^verbatim>\<open>os.path.exists\<close> answers \<^verbatim>\<open>False\<close> for such a path.
\<close>

definition has_nul :: "string \<Rightarrow> bool" where
  "has_nul p = (CHR 0x00 \<in> set p)"

definition scan_file_skipped :: "string list \<Rightarrow> string \<Rightarrow> bool" where
  "scan_file_skipped excluded file_path =
     list_ex (\<lambda>e. startswith (normpath file_path) e) excluded"

type_synonym totals = "nat \<times> nat \<times> nat"

definition add_totals :: "totals \<Rightarrow> totals \<Rightarrow> totals" where
  "add_totals a b =
     (case a of (d, f, s) \<Rightarrow> (case b of (d', f', s') \<Rightarrow> (d + d', f + f', s + s')))"

definition scan_body :: "string list \<Rightarrow> string \<Rightarrow> (string \<times> 'c node) list \<Rightarrow> totals" where
  "scan_body excluded root es =
     (let dirs = filter (\<lambda>(d, x). is_dir x \<and> \<not> path_excluded excluded (join root d)) es;
          files = filter (\<lambda>(f, x). \<not> is_dir x \<and> \<not> scan_file_skipped excluded (join root f)) es
      in (length dirs, length files, sum_list (map (\<lambda>(f, x). getsize x) files)))"

fun scan_walk :: "string list \<Rightarrow> string \<Rightarrow> 'c node \<Rightarrow> totals"
  and scan_children :: "string list \<Rightarrow> string \<Rightarrow> (string \<times> 'c node) list \<Rightarrow> totals" where
  "scan_walk excluded root (File r sz c) = (0, 0, 0)"
| "scan_walk excluded root (Dir r es) =
     (if r then add_totals (scan_body excluded root es) (scan_children excluded root es)
      else (0, 0, 0))"
| "scan_children excluded root [] = (0, 0, 0)"
| "scan_children excluded root ((d, x) # rest) =
     add_totals
       (if is_dir x \<and> \<not> path_excluded excluded (join root d)
        then scan_walk excluded (join root d) x else (0, 0, 0))
       (scan_children excluded root rest)"

datatype exn = TarError string | OtherError string


definition scan_directory :: "string \<Rightarrow> string \<Rightarrow> 'c node option \<Rightarrow> exn + totals" where
  "scan_directory home path found =
     (if has_nul path then Inl (OtherError ''embedded null byte'')
      else Inr (case found of
                  None \<Rightarrow> (0, 0, 0)
                | Some t \<Rightarrow> scan_walk (excluded_normalized_paths (EXCLUDE_DIRS home)) path t))"

section \<open>Archiving\<close>

text \<open>
  An archive is the list of its members in the order they were added. \<^verbatim>\<open>tar.add(name,
  arcname=a)\<close> is called by the engine without \<^verbatim>\<open>recursive=False\<close>, so
  \<^verbatim>\<open>tarfile\<close> adds a directory together with everything below it, each member under
  \<^verbatim>\<open>os.path.join(arcname, f)\<close>; member names lose their leading slashes. Opening an
  unreadable file or listing an unreadable directory raises, and so does a write that
  fails (the disk is full); the predicate \<open>fails\<close> tells for which member names the write
  fails, and such a member is left in the archive cut short. An exception ends the call
  with the members added so far (the flag is \<^const>\<open>False\<close>); the engine catches it
  (lines 172 and 202) and goes on.
\<close>

datatype 'c entry = DirEntry string | FileEntry string 'c | Truncated string

definition tar_name :: "string \<Rightarrow> string" where
  "tar_name arcname = dropWhile (\<lambda>c. c = CHR ''/'') arcname"

fun tar_add :: "(string \<Rightarrow> bool) \<Rightarrow> 'c node \<Rightarrow> string \<Rightarrow> 'c entry list \<times> bool"
  and tar_add_list ::
    "(string \<Rightarrow> bool) \<Rightarrow> (string \<times> 'c node) list \<Rightarrow> string \<Rightarrow> 'c entry list \<times> bool" where
  "tar_add fails (File r sz c) arcname =
     (if \<not> r then ([], False)
      else if fails (tar_name arcname) then ([Truncated (tar_name arcname)], False)
      else ([FileEntry (tar_name arcname) c], True))"
| "tar_add fails (Dir r es) arcname =
     (if fails (tar_name arcname) then ([Truncated (tar_name arcname)], False)
      else if r then
        (case tar_add_list fails es arcname of (xs, ok) \<Rightarrow> (DirEntry (tar_name arcname) # xs, ok))
      else ([DirEntry (tar_name arcname)], False))"
| "tar_add_list fails [] arcname = ([], True)"
| "tar_add_list fails ((f, x) # rest) arcname =
     (case tar_add fails x (join arcname f) of
        (xs, True) \<Rightarrow> (case tar_add_list fails rest arcname of (ys, ok) \<Rightarrow> (xs @ ys, ok))
      | (xs, False) \<Rightarrow> (xs, False))"

text \<open>
  The body of the loop of \<^verbatim>\<open>create_tarball_with_progress\<close> for one directory
  \<open>root\<close> of the walk (lines 151-203): the subdirectories that survive the pruning are
  added, then the files; each is skipped when it is excluded or unreadable, a file also
  when it is larger than \<^const>\<open>FILE_SIZE_LIMIT\<close>.
\<close>

definition add_directory ::
  "(string \<Rightarrow> bool) \<Rightarrow> string \<Rightarrow> string list \<Rightarrow> string \<Rightarrow> string \<Rightarrow> string \<times> 'c node
     \<Rightarrow> 'c entry list" where
  "add_directory fails cwd excluded source_path root dx =
     (case dx of (d, x) \<Rightarrow>
        let dir_path = join root d in
        if path_excluded excluded dir_path then []
        else if \<not> access_R_OK x then []
        else (case relpath cwd dir_path source_path of
                None \<Rightarrow> []
              | Some arcname \<Rightarrow> fst (tar_add fails x arcname)))"

definition add_file ::
  "(string \<Rightarrow> bool) \<Rightarrow> string \<Rightarrow> string list \<Rightarrow> string \<Rightarrow> string \<Rightarrow> string \<times> 'c node
     \<Rightarrow> 'c entry list" where
  "add_file fails cwd excluded source_path root fx =
     (case fx of (f, x) \<Rightarrow>
        let file_path = join root f in
        if path_excluded excluded file_path then []
        else if \<not> access_R_OK x then []
        else if getsize x > FILE_SIZE_LIMIT then []
        else (case relpath cwd file_path source_path of
                None \<Rightarrow> []
              | Some arcname \<Rightarrow> fst (tar_add fails x arcname)))"

definition archive_body ::
  "(string \<Rightarrow> bool) \<Rightarrow> string \<Rightarrow> string list \<Rightarrow> string \<Rightarrow> string \<Rightarrow> (string \<times> 'c node) list
     \<Rightarrow> 'c entry list" where
  "archive_body fails cwd excluded source_path root es =
     (let dirs = filter (\<lambda>(d, x). is_dir x \<and> \<not> path_excluded excluded (join root d)) es;
          files = filter (\<lambda>(f, x). \<not> is_dir x) es
      in concat (map (add_directory fails cwd excluded source_path root) dirs)
         @ concat (map (add_file fails cwd excluded source_path root) files))"

fun archive_walk ::
  "(string \<Rightarrow> bool) \<Rightarrow> string \<Rightarrow> string list \<Rightarrow> string \<Rightarrow> string \<Rightarrow> 'c node \<Rightarrow> 'c entry list"
  and archive_children ::
  "(string \<Rightarrow> bool) \<Rightarrow> string \<Rightarrow> string list \<Rightarrow> string \<Rightarrow> string \<Rightarrow> (string \<times> 'c node) list
     \<Rightarrow> 'c entry list" where
  "archive_walk fails cwd excluded source_path root (File r sz c) = []"
| "archive_walk fails cwd excluded source_path root (Dir r es) =
     (if r then archive_body fails cwd excluded source_path root es
                @ archive_children fails cwd excluded source_path root es
      else [])"
| "archive_children fails cwd excluded source_path root [] = []"
| "archive_children fails cwd excluded source_path root ((d, x) # rest) =
     (if is_dir x \<and> \<not> path_excluded excluded (join root d)
      then archive_walk fails cwd excluded source_path (join root d) x else [])
     @ archive_children fails cwd excluded source_path root rest"

definition archive_entries ::
  "(string \<Rightarrow> bool) \<Rightarrow> string \<Rightarrow> string list \<Rightarrow> string \<Rightarrow> 'c node option \<Rightarrow> 'c entry list" where
  "archive_entries fails cwd excluded source_path found =
     (case found of
        None \<Rightarrow> []
      | Some t \<Rightarrow> archive_walk fails cwd excluded source_path source_path t)"

section \<open>Building and publishing the archive\<close>

text \<open>
  The machine the engine runs on: what is found at a source path (\<^const>\<open>None\<close> when
  nothing exists there), the working directory, the home directory, and the archive files
  of the output directory by path. An archive file that is still open for writing, or was
  left so, is \<open>Partial\<close>; a closed one is \<open>Complete\<close>.
\<close>

datatype 'c archive_file = Partial "'c entry list" | Complete "'c entry list"

type_synonym 'c store = "string \<Rightarrow> 'c archive_file option"

record 'c machine =
  tree :: "string \<Rightarrow> 'c node option"
  cwd :: string
  home :: string
  archives :: "'c store"

text \<open>
  The places where the engine can meet an exception while it writes: opening the temporary
  file, writing a member inside \<^verbatim>\<open>tar.add\<close> (by member name), closing the archive at
  the end of the \<^verbatim>\<open>with\<close> block, and the rename. An exception of the first, third
  and fourth kind reaches the handlers of lines 208-213; one of the second kind is caught
  inside the walk. Whether they occur is for the file system to say: a destination in a
  directory that is missing, or with a name it refuses, is an error of opening.
\<close>

record faults =
  open_error :: "exn option"
  write_error :: "string \<Rightarrow> bool"
  close_error :: "exn option"
  rename_error :: "exn option"

definition first_fault :: "faults \<Rightarrow> exn option" where
  "first_fault flt =
     (case open_error flt of
        Some e \<Rightarrow> Some e
      | None \<Rightarrow> (case close_error flt of
                   Some e \<Rightarrow> Some e
                 | None \<Rightarrow> rename_error flt))"

text \<open>
  The \<^verbatim>\<open>try\<close> block from line 149 on, for the members \<open>es\<close> that the walk leaves
  in the archive (those cut short by a failed write among them): the states of the output
  directory one after the other, and the exception that ended the block, if any. Every
  member added changes the temporary file only.
\<close>

definition write_archive ::
  "faults \<Rightarrow> 'c store \<Rightarrow> string \<Rightarrow> string \<Rightarrow> 'c entry list \<Rightarrow> 'c store list \<times> exn option" where
  "write_archive flt st temp_dest_path dest_path es =
     (case open_error flt of
        Some e \<Rightarrow> ([], Some e)
      | None \<Rightarrow>
          let writing = map (\<lambda>k. st(temp_dest_path \<mapsto> Partial (take k es))) [0..<Suc (length es)];
              closed = st(temp_dest_path \<mapsto> Complete es)
          in (case close_error flt of
                Some e \<Rightarrow> (writing, Some e)
              | None \<Rightarrow>
                  (case rename_error flt of
                     Some e \<Rightarrow> (writing @ [closed], Some e)
                   | None \<Rightarrow>
                       (writing @ [closed, (closed(dest_path \<mapsto> Complete es))(temp_dest_path := None)],
                        None))))"

definition build_message :: "string \<Rightarrow> exn option \<Rightarrow> bool \<times> string" where
  "build_message dest_path err =
     (case err of
        None \<Rightarrow> (True, ''Tarball created at '' @ dest_path)
      | Some (TarError m) \<Rightarrow> (False, ''Tarball creation error: '' @ m)
      | Some (OtherError m) \<Rightarrow> (False, ''Failed to create tarball: '' @ m))"

text \<open>
  \<^verbatim>\<open>create_tarball_with_progress\<close>: the pair it returns or the exception it raises,
  the totals of the scan (used for the progress lines only), and the successive states of
  the output directory, the first being the one the call started in and the last the one
  it leaves. The \<^verbatim>\<open>finally\<close> block removes the temporary file when it exists. The
  scan of line 143 comes before \<^verbatim>\<open>temp_dest_path\<close> is bound in line 147: when it
  raises, the handler of line 211 prepares a failure pair, but the \<^verbatim>\<open>finally\<close> block
  reads the unbound name and the call raises \<^verbatim>\<open>UnboundLocalError\<close> instead.
\<close>

datatype raised = UnboundLocalError

fun raised_text :: "raised \<Rightarrow> string" where
  "raised_text UnboundLocalError =
     ''cannot access local variable 'temp_dest_path' where it is not associated with a value''"

definition create_tarball_with_progress ::
  "faults \<Rightarrow> 'c machine \<Rightarrow> string \<Rightarrow> string \<Rightarrow> string list
     \<Rightarrow> (raised + bool \<times> string) \<times> totals option \<times> 'c store list" where
  "create_tarball_with_progress flt m source_path dest_path exclude_dirs =
     (let excluded = excluded_normalized_paths exclude_dirs
      in case scan_directory (home m) source_path (tree m source_path) of
           Inl e \<Rightarrow> (Inl UnboundLocalError, None, [archives m])
         | Inr scanned \<Rightarrow>
             let temp_dest_path = dest_path @ ''.tmp'';
                 es = archive_entries (write_error flt) (cwd m) excluded source_path
                        (tree m source_path);
                 (steps, err) = write_archive flt (archives m) temp_dest_path dest_path es;
                 states = archives m # steps;
                 st = last states
             in (Inr (build_message dest_path err), Some scanned,
                 if st temp_dest_path \<noteq> None then states @ [st(temp_dest_path := None)]
                 else states))"

section \<open>Backup operations\<close>

text \<open>
  \<^verbatim>\<open>datetime.now()\<close> is an input of the two operations. The format
  \<^verbatim>\<open>%Y%m%d-%H%M%S\<close> writes the year with four digits and the other fields with two.
\<close>

record datetime =
  year :: nat
  month :: nat
  day :: nat
  hour :: nat
  minute :: nat
  second :: nat
  microsecond :: nat

definition digit :: "nat \<Rightarrow> char" where
  "digit n = ''0123456789'' ! (n mod 10)"

definition pad2 :: "nat \<Rightarrow> string" where
  "pad2 n = [digit (n div 10), digit n]"

definition pad4 :: "nat \<Rightarrow> string" where
  "pad4 n = [digit (n div 1000), digit (n div 100), digit (n div 10), digit n]"

definition strftime :: "datetime \<Rightarrow> string" where
  "strftime t =
     pad4 (year t) @ pad2 (month t) @ pad2 (day t) @ ''-''
     @ pad2 (hour t) @ pad2 (minute t) @ pad2 (second t)"

text \<open>
  The values \<^verbatim>\<open>datetime.now()\<close> can return, with a year of four digits, and two
  instants that fall in the same second.
\<close>

definition valid_datetime :: "datetime \<Rightarrow> bool" where
  "valid_datetime t =
     (1000 \<le> year t \<and> year t \<le> 9999 \<and> 1 \<le> month t \<and> month t \<le> 12 \<and> 1 \<le> day t \<and> day t \<le> 31
      \<and> hour t < 24 \<and> minute t < 60 \<and> second t < 60 \<and> microsecond t < 1000000)"

definition same_second :: "datetime \<Rightarrow> datetime \<Rightarrow> bool" where
  "same_second t u =
     (year t = year u \<and> month t = month u \<and> day t = day u
      \<and> hour t = hour u \<and> minute t = minute u \<and> second t = second u)"

text \<open>The name of an archive: \<^verbatim>\<open>f"{subject}_{timestamp}.tar.gz"\<close>.\<close>

definition backup_name :: "string \<Rightarrow> datetime \<Rightarrow> string" where
  "backup_name subject t = subject @ ''_'' @ strftime t @ ''.tar.gz''"

text \<open>
  \<^verbatim>\<open>full_system_backup\<close> catches every exception of the build (line 236);
  \<^verbatim>\<open>specific_directory_backup\<close> lets it pass, after the test
  \<^verbatim>\<open>os.path.exists(directory)\<close> of line 242.
\<close>

definition path_exists :: "'c machine \<Rightarrow> string \<Rightarrow> bool" where
  "path_exists m p = (\<not> has_nul p \<and> tree m p \<noteq> None)"

definition full_system_backup ::
  "faults \<Rightarrow> 'c machine \<Rightarrow> datetime \<Rightarrow> (bool \<times> string) \<times> 'c store list" where
  "full_system_backup flt m now =
     (let backup_path = join (BACKUP_DIR (home m)) (backup_name ''full_system'' now);
          (res, scanned, states) =
             create_tarball_with_progress flt m ''/'' backup_path (EXCLUDE_DIRS (home m))
      in case res of
           Inl e \<Rightarrow> ((False, ''Full system backup failed: '' @ raised_text e), states)
         | Inr (success, message) \<Rightarrow>
             if success then ((True, ''Full system backup completed to '' @ backup_path), states)
             else ((False, ''Full system backup failed: '' @ message), states))"

definition specific_directory_backup ::
  "faults \<Rightarrow> 'c machine \<Rightarrow> datetime \<Rightarrow> string
     \<Rightarrow> (raised + bool \<times> string) \<times> 'c store list" where
  "specific_directory_backup flt m now directory =
     (if \<not> path_exists m directory
      then (Inr (False, ''Directory does not exist: '' @ directory), [archives m])
      else
        let backup_path = join (BACKUP_DIR (home m)) (backup_name (basename directory) now);
            (res, scanned, states) =
               create_tarball_with_progress flt m directory backup_path []
        in case res of
             Inl e \<Rightarrow> (Inl e, states)
           | Inr (success, message) \<Rightarrow>
               if success
               then (Inr (True, ''Specific directory backup completed to '' @ backup_path), states)
               else (Inr (False, ''Specific directory backup failed: '' @ message), states))"

section \<open>Restoring\<close>

text \<open>
  The restore directory, when it exists, holds objects by their path relative to it.
  \<^verbatim>\<open>restore_backup\<close> creates the directory when it is missing, reads the members of
  the archive and extracts them one after the other; a member that cannot be extracted
  (the fault \<open>extract_error\<close> at its index, or an object of the other kind in its place)
  is skipped. An archive that was never closed cannot be read to its end, and in a closed
  one the member list ends with the first member that was cut short, which comes back as
  a damaged file.
\<close>

datatype 'c obj = ODir | OFile 'c | ODamaged

type_synonym 'c folder = "string \<Rightarrow> 'c obj option"

record rfaults =
  makedirs_error :: "string option"
  read_error :: "exn option"
  extract_error :: "nat \<Rightarrow> bool"

definition tar_extract :: "'c folder \<Rightarrow> 'c entry \<Rightarrow> 'c folder" where
  "tar_extract dst member =
     (case member of
        DirEntry n \<Rightarrow> (case dst n of None \<Rightarrow> dst(n \<mapsto> ODir) | Some ODir \<Rightarrow> dst | _ \<Rightarrow> dst)
      | FileEntry n c \<Rightarrow> (case dst n of Some ODir \<Rightarrow> dst | _ \<Rightarrow> dst(n \<mapsto> OFile c))
      | Truncated n \<Rightarrow> (case dst n of Some ODir \<Rightarrow> dst | _ \<Rightarrow> dst(n \<mapsto> ODamaged)))"

fun readable_members :: "'c entry list \<Rightarrow> 'c entry list" where
  "readable_members [] = []"
| "readable_members (Truncated n # members) = [Truncated n]"
| "readable_members (member # members) = member # readable_members members"

fun extract_members :: "(nat \<Rightarrow> bool) \<Rightarrow> nat \<Rightarrow> 'c folder \<Rightarrow> 'c entry list \<Rightarrow> 'c folder" where
  "extract_members failing i dst [] = dst"
| "extract_members failing i dst (member # members) =
     extract_members failing (Suc i) (if failing i then dst else tar_extract dst member) members"

definition getmembers :: "rfaults \<Rightarrow> 'c archive_file \<Rightarrow> exn + 'c entry list" where
  "getmembers rflt file =
     (case file of
        Partial es \<Rightarrow>
          Inl (OtherError ''Compressed file ended before the end-of-stream marker was reached'')
      | Complete es \<Rightarrow>
          (case read_error rflt of Some e \<Rightarrow> Inl e | None \<Rightarrow> Inr (readable_members es)))"

definition restore_backup ::
  "rfaults \<Rightarrow> 'c store \<Rightarrow> string \<Rightarrow> 'c folder option \<Rightarrow> (bool \<times> string) \<times> 'c folder option" where
  "restore_backup rflt st backup_file restore_dir =
     (case st backup_file of
        None \<Rightarrow> ((False, ''Backup file not found.''), restore_dir)
      | Some file \<Rightarrow>
          (case (case restore_dir of
                   Some dst \<Rightarrow> Inr dst
                 | None \<Rightarrow> (case makedirs_error rflt of
                              Some e \<Rightarrow> Inl e
                            | None \<Rightarrow> Inr Map.empty)) of
             Inl e \<Rightarrow> ((False, ''Failed to create restore directory: '' @ e), restore_dir)
           | Inr dst \<Rightarrow>
               (case getmembers rflt file of
                  Inl (TarError e) \<Rightarrow> ((False, ''Restore failed (TarError): '' @ e), Some dst)
                | Inl (OtherError e) \<Rightarrow> ((False, ''Failed to restore backup: '' @ e), Some dst)
                | Inr members \<Rightarrow>
                    ((True, ''Restore completed successfully.''),
                     Some (extract_members (extract_error rflt) 0 dst members)))))"

text \<open>
  The members that a call of \<^verbatim>\<open>create_tarball_with_progress\<close> leaves in the archive.
\<close>

definition build_entries :: "faults \<Rightarrow> 'c machine \<Rightarrow> string \<Rightarrow> string list \<Rightarrow> 'c entry list" where
  "build_entries flt m source_path exclude_dirs =
     archive_entries (write_error flt) (cwd m) (excluded_normalized_paths exclude_dirs)
       source_path (tree m source_path)"

text \<open>What a restore left at a path of the restore directory.\<close>

definition restored :: "(bool \<times> string) \<times> 'c folder option \<Rightarrow> string \<Rightarrow> 'c obj option" where
  "restored r p = (case snd r of None \<Rightarrow> None | Some dst \<Rightarrow> dst p)"

section \<open>Configuration\<close>

text \<open>
  The configuration is the JSON object of the file \<^verbatim>\<open>backup_config.json\<close>. A key is
  absent (\<^const>\<open>None\<close>, which is also what \<^verbatim>\<open>config.get\<close> returns for it) or holds a
  value of the JSON type of its default. Strings are lists of characters with code points
  below 256.
\<close>

record config =
  auto_backup_enabled :: "bool option"
  backup_type :: "string option"
  specific_dir :: "string option"
  frequency :: "string option"
  time :: "string option"

definition DEFAULT_CONFIG :: "string \<Rightarrow> config" where
  "DEFAULT_CONFIG home_dir =
     \<lparr>auto_backup_enabled = Some False, backup_type = Some ''specific'',
      specific_dir = Some home_dir, frequency = Some ''daily'', time = Some ''00:00''\<rparr>"

definition structurally_complete :: "config \<Rightarrow> bool" where
  "structurally_complete c =
     (auto_backup_enabled c \<noteq> None \<and> backup_type c \<noteq> None \<and> specific_dir c \<noteq> None
      \<and> frequency c \<noteq> None \<and> time c \<noteq> None)"

text \<open>
  The file is absent, holds text that \<^verbatim>\<open>json.load\<close> rejects, or holds an object.
  Writing it can fail when the file is opened, which leaves it as it was, or later, which
  leaves a truncated text; reading it can fail too.
\<close>

datatype config_file = Absent | Malformed | Holds config

datatype save_outcome = Saved | OpenFails string | WriteFails string

record cfaults =
  on_save :: save_outcome
  read_fails :: bool

definition save_config :: "cfaults \<Rightarrow> config \<Rightarrow> config_file \<Rightarrow> (bool \<times> string) \<times> config_file" where
  "save_config cf c file =
     (case on_save cf of
        Saved \<Rightarrow> ((True, ''Configuration saved successfully.''), Holds c)
      | OpenFails e \<Rightarrow> ((False, ''Failed to save configuration: '' @ e), file)
      | WriteFails e \<Rightarrow> ((False, ''Failed to save configuration: '' @ e), Malformed))"

text \<open>
  \<^verbatim>\<open>load_config\<close>: a missing file is first written with the defaults, the result of
  which is ignored; then the file is read, and every exception of the reading, the
  \<^verbatim>\<open>JSONDecodeError\<close> among them, is answered with the defaults.
\<close>

definition load_config :: "cfaults \<Rightarrow> string \<Rightarrow> config_file \<Rightarrow> config \<times> config_file" where
  "load_config cf home_dir file =
     (let file1 = (if file = Absent then snd (save_config cf (DEFAULT_CONFIG home_dir) file) else file)
      in if read_fails cf then (DEFAULT_CONFIG home_dir, file1)
         else (case file1 of
                 Absent \<Rightarrow> (DEFAULT_CONFIG home_dir, file1)
               | Malformed \<Rightarrow> (DEFAULT_CONFIG home_dir, file1)
               | Holds c \<Rightarrow> (c, file1)))"

section \<open>The scheduler\<close>

text \<open>
  \<^verbatim>\<open>time.strptime(s, "%H:%M")\<close> accepts an hour of one digit or of two digits from 00
  to 23, a colon, and a minute of one digit or of two digits from 00 to 59, and nothing
  before or after; otherwise it raises \<^verbatim>\<open>ValueError\<close>.
\<close>

definition is_digit :: "char \<Rightarrow> bool" where
  "is_digit c = (c \<in> set ''0123456789'')"

definition hour_ok :: "string \<Rightarrow> bool" where
  "hour_ok h =
     (case h of
        [a] \<Rightarrow> is_digit a
      | [a, b] \<Rightarrow> (a = CHR ''2'' \<and> b \<in> set ''0123'') \<or> (a \<in> set ''01'' \<and> is_digit b)
      | _ \<Rightarrow> False)"

definition minute_ok :: "string \<Rightarrow> bool" where
  "minute_ok m =
     (case m of
        [a] \<Rightarrow> is_digit a
      | [a, b] \<Rightarrow> a \<in> set ''012345'' \<and> is_digit b
      | _ \<Rightarrow> False)"

definition strptime_HM :: "string \<Rightarrow> bool" where
  "strptime_HM s =
     (case dropWhile (\<lambda>c. c \<noteq> CHR '':'') s of
        [] \<Rightarrow> False
      | c # m \<Rightarrow> hour_ok (takeWhile (\<lambda>c. c \<noteq> CHR '':'') s) \<and> minute_ok m)"

text \<open>
  The state of the module: the global \<^verbatim>\<open>_scheduler_thread\<close> (threads are numbered in
  the order they are started), the runner threads that are alive, the stop event, the job
  table of the \<^verbatim>\<open>schedule\<close> library, and the configuration file.
\<close>

datatype every = EveryDay | EverySunday

record job =
  every :: every
  at_time :: string
  kind :: string
  job_directory :: "string option"
  first_day_of_month_only :: bool

record scheduler =
  scheduler_thread :: "nat option"
  alive :: "nat set"
  stop_scheduler_event :: bool
  jobs :: "job list"
  threads_started :: nat
  config_file :: config_file

text \<open>
  What one call of \<^verbatim>\<open>auto_backup_scheduler\<close> meets: whether the previous runner ends
  within the five seconds of \<^verbatim>\<open>join\<close>, whether it ends later, before the liveness test
  of line 555, what \<^verbatim>\<open>os.path.isdir\<close> answers, which times the \<^verbatim>\<open>at\<close> of the
  \<^verbatim>\<open>schedule\<close> library accepts (it raises on the others), and the faults of the
  configuration file.
\<close>

record env =
  exits_on_join :: bool
  exits_late :: bool
  isdir :: "string \<Rightarrow> bool"
  at_accepts :: "string \<Rightarrow> bool"
  config_faults :: cfaults

datatype sched_exn = TypeError | ScheduleValueError

definition thread_is_alive :: "scheduler \<Rightarrow> bool" where
  "thread_is_alive s = (case scheduler_thread s of None \<Rightarrow> False | Some t \<Rightarrow> t \<in> alive s)"

text \<open>
  Lines 483-490: when the thread of the module is alive, the stop event is set and the
  thread is waited for, five seconds at most. The two states are listed; there is none
  when no thread is alive.
\<close>

definition signal_and_join :: "env \<Rightarrow> scheduler \<Rightarrow> scheduler list" where
  "signal_and_join e s =
     (case scheduler_thread s of
        None \<Rightarrow> []
      | Some t \<Rightarrow>
          if t \<in> alive s then
            (let s1 = s\<lparr>stop_scheduler_event := True\<rparr>
             in [s1, if exits_on_join e then s1\<lparr>alive := alive s1 - {t}\<rparr> else s1])
          else [])"

text \<open>Line 493: the event is cleared, whether the thread has ended or not.\<close>

definition stop_previous :: "env \<Rightarrow> scheduler \<Rightarrow> scheduler" where
  "stop_previous e s = (last (s # signal_and_join e s))\<lparr>stop_scheduler_event := False\<rparr>"

definition late_exit :: "env \<Rightarrow> scheduler \<Rightarrow> scheduler" where
  "late_exit e s =
     (case scheduler_thread s of
        None \<Rightarrow> s
      | Some t \<Rightarrow> if exits_late e then s\<lparr>alive := alive s - {t}\<rparr> else s)"

text \<open>Lines 555-557: a new runner thread is started.\<close>

definition start_runner :: "scheduler \<Rightarrow> scheduler" where
  "start_runner s =
     s\<lparr>scheduler_thread := Some (threads_started s),
       alive := insert (threads_started s) (alive s),
       threads_started := Suc (threads_started s)\<rparr>"

text \<open>Lines 539-552: the job of each frequency.\<close>

definition make_job :: "config \<Rightarrow> string \<Rightarrow> string \<Rightarrow> string \<Rightarrow> job" where
  "make_job cfg knd freq t =
     \<lparr>every = (if freq = ''weekly'' then EverySunday else EveryDay), at_time = t, kind = knd,
      job_directory = specific_dir cfg, first_day_of_month_only = (freq = ''monthly'')\<rparr>"

definition usable_dir :: "env \<Rightarrow> string option \<Rightarrow> bool" where
  "usable_dir e d = (case d of None \<Rightarrow> False | Some p \<Rightarrow> p \<noteq> [] \<and> isdir e p)"

text \<open>
  Lines 539-562: \<^verbatim>\<open>do\<close> appends the job to the table; a runner thread is started
  unless the one the module knows is alive. The states passed through are listed.
\<close>

definition install_and_start :: "env \<Rightarrow> scheduler \<Rightarrow> job \<Rightarrow> scheduler list" where
  "install_and_start e s2 j =
     (let s3 = s2\<lparr>jobs := jobs s2 @ [j]\<rparr>;
          s4 = late_exit e s3
      in if \<not> thread_is_alive s4 then [s3, s4, start_runner s4] else [s3, s4])"

text \<open>
  \<^verbatim>\<open>auto_backup_scheduler\<close>: what it returns or raises, and the states of the module
  one after the other, the last being the one it leaves. After the previous runner was
  dealt with, the configuration is loaded and \<^verbatim>\<open>schedule.clear()\<close> empties the job
  table (line 498).
\<close>

definition auto_backup_scheduler ::
  "env \<Rightarrow> string \<Rightarrow> scheduler \<Rightarrow> (sched_exn + bool) \<times> scheduler list" where
  "auto_backup_scheduler e home_dir s =
     (let s1 = stop_previous e s;
          (cfg, stored) = load_config (config_faults e) home_dir (config_file s1);
          s2 = s1\<lparr>config_file := stored, jobs := []\<rparr>;
          pre = signal_and_join e s @ [s1, s2]
      in if auto_backup_enabled cfg \<noteq> Some True then (Inr False, pre)
         else (case backup_type cfg of
             None \<Rightarrow> (Inr False, pre)
           | Some knd \<Rightarrow>
               if knd \<noteq> ''full'' \<and> knd \<noteq> ''specific'' then (Inr False, pre)
               else if knd = ''specific'' \<and> \<not> usable_dir e (specific_dir cfg)
                 then (Inr False, pre)
               else (case frequency cfg of
                   None \<Rightarrow> (Inr False, pre)
                 | Some freq \<Rightarrow>
                     if freq \<noteq> ''daily'' \<and> freq \<noteq> ''weekly'' \<and> freq \<noteq> ''monthly''
                       then (Inr False, pre)
                     else (case time cfg of
                         None \<Rightarrow> (Inl TypeError, pre)
                       | Some t \<Rightarrow>
                           if \<not> strptime_HM t then (Inr False, pre)
                           else if \<not> at_accepts e t then (Inl ScheduleValueError, pre)
                           else (Inr True,
                                 pre @ install_and_start e s2 (make_job cfg knd freq t))))))"

text \<open>
  A sequence of reconfigurations: before each call the caller may have replaced the
  configuration file. All the states the module goes through are listed.
\<close>

fun reconfigure :: "(env \<times> config_file option) list \<Rightarrow> string \<Rightarrow> scheduler \<Rightarrow> scheduler list" where
  "reconfigure [] home_dir s = []"
| "reconfigure ((e, written) # rest) home_dir s =
     (let s0 = (case written of None \<Rightarrow> s | Some f \<Rightarrow> s\<lparr>config_file := f\<rparr>);
          states = snd (auto_backup_scheduler e home_dir s0)
      in s0 # states @ reconfigure rest home_dir (last (s0 # states)))"

definition initial_scheduler :: "config_file \<Rightarrow> scheduler" where
  "initial_scheduler f =
     \<lparr>scheduler_thread = None, alive = {}, stop_scheduler_event = False, jobs = [],
      threads_started = 0, config_file = f\<rparr>"

definition at_most_one_runner :: "scheduler \<Rightarrow> bool" where
  "at_most_one_runner s =
     (case scheduler_thread s of None \<Rightarrow> alive s = {} | Some t \<Rightarrow> alive s \<subseteq> {t})"

text \<open>
  The configurations that the validation of lines 510-523 rejects: the kind, the directory
  of a specific backup, the frequency, or a time that is a string and does not parse.
\<close>

definition rejected :: "env \<Rightarrow> config \<Rightarrow> bool" where
  "rejected e cfg =
     ((backup_type cfg \<noteq> Some ''full'' \<and> backup_type cfg \<noteq> Some ''specific'')
      \<or> (backup_type cfg = Some ''specific'' \<and> \<not> usable_dir e (specific_dir cfg))
      \<or> (frequency cfg \<noteq> Some ''daily'' \<and> frequency cfg \<noteq> Some ''weekly''
          \<and> frequency cfg \<noteq> Some ''monthly'')
      \<or> (case time cfg of None \<Rightarrow> False | Some t \<Rightarrow> \<not> strptime_HM t))"




section \<open>A small machine\<close>

text \<open>
  A root directory with \<^verbatim>\<open>/etc/hosts\<close>, \<^verbatim>\<open>/var/log/syslog\<close>, a file
  \<^verbatim>\<open>/var/big\<close> and a file \<^verbatim>\<open>/top\<close> of 500 MiB and one byte each; contents are
  numbered. The output directory is empty and nothing fails.
\<close>

definition example_root :: "nat node" where
  "example_root =
     Dir True
       [(''etc'', Dir True [(''hosts'', File True 10 1)]),
        (''var'', Dir True [(''log'', Dir True [(''syslog'', File True 20 2)]),
                            (''big'', File True 524288001 3)]),
        (''top'', File True 524288001 4)]"

definition example_machine :: "nat machine" where
  "example_machine =
     \<lparr>tree = (\<lambda>p. if p = ''/'' then Some example_root else None),
      cwd = ''/'', home = ''/root'', archives = Map.empty\<rparr>"

definition no_faults :: faults where
  "no_faults =
     \<lparr>open_error = None, write_error = (\<lambda>n. False), close_error = None, rename_error = None\<rparr>"

definition no_rfaults :: rfaults where
  "no_rfaults = \<lparr>makedirs_error = None, read_error = None, extract_error = (\<lambda>i. False)\<rparr>"

definition example_time :: datetime where
  "example_time =
     \<lparr>year = 2026, month = 11, day = 3, hour = 9, minute = 5, second = 7, microsecond = 0\<rparr>"







text \<open>A machine whose only source is \<^verbatim>\<open>/var\<close>, with a log directory.\<close>

definition var_machine :: "nat machine" where
  "var_machine =
     \<lparr>tree = (\<lambda>p. if p = ''/var''
                   then Some (Dir True [(''log'', Dir True [(''syslog'', File True 20 2)])])
                   else None),
      cwd = ''/'', home = ''/root'', archives = Map.empty\<rparr>"

section \<open>A small scheduler\<close>

text \<open>
  A configuration that asks for a full backup every night, the module with one runner
  alive, and a call in which the runner does not end within the wait, every directory
  exists, the library accepts every time and nothing fails.
\<close>

definition no_cfaults :: cfaults where
  "no_cfaults = \<lparr>on_save = Saved, read_fails = False\<rparr>"

definition empty_config :: config where
  "empty_config = \<lparr>auto_backup_enabled = None, backup_type = None, specific_dir = None,
     frequency = None, time = None\<rparr>"

definition stuck_env :: env where
  "stuck_env = \<lparr>exits_on_join = False, exits_late = False, isdir = (\<lambda>p. True),
     at_accepts = (\<lambda>t. True), config_faults = no_cfaults\<rparr>"

definition nightly_config :: config where
  "nightly_config = \<lparr>auto_backup_enabled = Some True, backup_type = Some ''full'',
     specific_dir = Some ''/root'', frequency = Some ''daily'', time = Some ''02:30''\<rparr>"

definition running_scheduler :: "config_file \<Rightarrow> scheduler" where
  "running_scheduler f =
     \<lparr>scheduler_thread = Some 0, alive = {0}, stop_scheduler_event = False,
      jobs = [make_job nightly_config ''full'' ''daily'' ''01:00''],
      threads_started = 1, config_file = f\<rparr>"

text \<open>At most one runner is alive and at most one job is registered.\<close>

definition one_runner_one_job :: "scheduler \<Rightarrow> bool" where
  "one_runner_one_job s = (at_most_one_runner s \<and> length (jobs s) \<le> 1)"

section \<open>Properties\<close>

subsection \<open>Paths\<close>

lemma startswith_iff_take: "startswith s p \<longleftrightarrow> take (length p) s = p"
  by (induction s p rule: startswith.induct) auto



















subsection \<open>The exclusion test on siblings\<close>

text \<open>
  Claim C1. The exclusion test should hold exactly for a path that equals an exclusion
  entry or lies below one, segment by segment, so that the sibling \<^verbatim>\<open>/var/logs\<close> is
  not excluded by the entry \<^verbatim>\<open>/var/log\<close>. The code compares raw strings with
  \<^verbatim>\<open>startswith\<close>: on the entry \<^verbatim>\<open>/var/log\<close> it excludes the sibling directory
  \<^verbatim>\<open>/var/logs\<close> and the file \<^verbatim>\<open>/var/logs/app.log\<close> in it, which the segment-wise
  test of the specification keeps.
\<close>

theorem path_excluded_sibling:
  "path_excluded (excluded_normalized_paths [''/var/log'']) (join ''/var'' ''logs'')
   \<and> path_excluded (excluded_normalized_paths [''/var/log'']) (join ''/var/logs'' ''app.log'')
   \<and> \<not> spec_isExcluded (excluded_normalized_paths [''/var/log'']) (join ''/var'' ''logs'')
   \<and> \<not> spec_isExcluded (excluded_normalized_paths [''/var/log'']) (join ''/var/logs'' ''app.log'')"
  by (simp add: path_excluded_def spec_isExcluded_def excluded_normalized_paths_def
      normpath_def initial_slashes_def norm_step_def join_def ends_with_sep_def segments_def)

subsection \<open>Publication by rename\<close>

lemmas path_defs = path_excluded_def excluded_normalized_paths_def normpath_def
  initial_slashes_def norm_step_def join_def ends_with_sep_def segments_def relpath_def
  abspath_def tar_name_def

lemma write_archive_err: "snd (write_archive flt st0 tmp dest_path es) = first_fault flt"
  by (simp add: write_archive_def Let_def first_fault_def split: option.splits)

lemma write_archive_published:
  assumes "first_fault flt = None"
  shows "fst (write_archive flt st0 tmp dest_path es)
         = map (\<lambda>k. st0(tmp \<mapsto> Partial (take k es))) [0..<Suc (length es)]
           @ [st0(tmp \<mapsto> Complete es),
              ((st0(tmp \<mapsto> Complete es))(dest_path \<mapsto> Complete es))(tmp := None)]"
  using assms
  by (simp add: write_archive_def Let_def first_fault_def split: option.splits)



lemma build_message_fst: "fst (build_message dest_path err) \<longleftrightarrow> err = None"
  by (auto simp: build_message_def split: option.splits exn.splits)


lemma create_result:
  assumes "\<not> has_nul source_path"
  shows "fst (create_tarball_with_progress flt m source_path dest_path exclude_dirs)
         = Inr (build_message dest_path (first_fault flt))"
  using assms write_archive_err[of flt "archives m" "dest_path @ ''.tmp''" dest_path
      "build_entries flt m source_path exclude_dirs"]
  by (auto simp: create_tarball_with_progress_def scan_directory_def build_entries_def Let_def
      split: prod.splits)

lemma create_states:
  assumes "\<not> has_nul source_path"
  shows "snd (snd (create_tarball_with_progress flt m source_path dest_path exclude_dirs))
         = (let body = archives m # fst (write_archive flt (archives m) (dest_path @ ''.tmp'')
                          dest_path (build_entries flt m source_path exclude_dirs))
            in if last body (dest_path @ ''.tmp'') \<noteq> None
               then body @ [(last body)(dest_path @ ''.tmp'' := None)] else body)"
  using assms
  by (auto simp: create_tarball_with_progress_def scan_directory_def build_entries_def Let_def
      split: prod.splits)

lemma create_states_published:
  assumes "\<not> has_nul source_path" and "first_fault flt = None"
  shows "snd (snd (create_tarball_with_progress flt m source_path dest_path exclude_dirs))
         = archives m
           # map (\<lambda>k. (archives m)(dest_path @ ''.tmp''
                          \<mapsto> Partial (take k (build_entries flt m source_path exclude_dirs))))
               [0..<Suc (length (build_entries flt m source_path exclude_dirs))]
           @ [(archives m)(dest_path @ ''.tmp''
                 \<mapsto> Complete (build_entries flt m source_path exclude_dirs)),
              ((archives m)(dest_path
                 \<mapsto> Complete (build_entries flt m source_path exclude_dirs)))
                (dest_path @ ''.tmp'' := None)]"
proof -
  have "((archives m)(dest_path @ ''.tmp'' \<mapsto> Complete es, dest_path \<mapsto> Complete es))
          (dest_path @ ''.tmp'' := None)
        = ((archives m)(dest_path \<mapsto> Complete es))(dest_path @ ''.tmp'' := None)" for es
    by (auto simp: fun_eq_iff)
  then show ?thesis
    unfolding create_states[OF assms(1)] write_archive_published[OF assms(2)]
    by (simp add: Let_def del: upt_Suc)
qed

lemma create_final:
  assumes "\<not> has_nul source_path" and "first_fault flt = None"
  shows "last (snd (snd (create_tarball_with_progress flt m source_path dest_path exclude_dirs)))
           dest_path
         = Some (Complete (build_entries flt m source_path exclude_dirs))"
  unfolding create_states_published[OF assms] by simp








subsection \<open>What a restore brings back\<close>

lemma full_system_backup_ok:
  assumes "first_fault flt = None"
  shows "fst (full_system_backup flt m now)
           = (True, ''Full system backup completed to ''
                    @ join (BACKUP_DIR (home m)) (backup_name ''full_system'' now))"
    and "last (snd (full_system_backup flt m now))
             (join (BACKUP_DIR (home m)) (backup_name ''full_system'' now))
           = Some (Complete (build_entries flt m ''/'' (EXCLUDE_DIRS (home m))))"
proof -
  have n: "\<not> has_nul ''/''"
    by (simp add: has_nul_def)
  show "fst (full_system_backup flt m now)
           = (True, ''Full system backup completed to ''
                    @ join (BACKUP_DIR (home m)) (backup_name ''full_system'' now))"
    and "last (snd (full_system_backup flt m now))
             (join (BACKUP_DIR (home m)) (backup_name ''full_system'' now))
           = Some (Complete (build_entries flt m ''/'' (EXCLUDE_DIRS (home m))))"
    using create_result[OF n, of flt m
          "join (BACKUP_DIR (home m)) (backup_name ''full_system'' now)" "EXCLUDE_DIRS (home m)"]
        create_final[OF n assms, of m
          "join (BACKUP_DIR (home m)) (backup_name ''full_system'' now)" "EXCLUDE_DIRS (home m)"]
        assms
    by (auto simp: full_system_backup_def Let_def build_message_def split: prod.splits)
qed

lemma restore_complete:
  assumes "st backup_file = Some (Complete es)"
      and "read_error rflt = None" and "makedirs_error rflt = None"
  shows "restore_backup rflt st backup_file None
         = ((True, ''Restore completed successfully.''),
            Some (extract_members (extract_error rflt) 0 Map.empty (readable_members es)))"
  using assms by (simp add: restore_backup_def getmembers_def)

lemma example_entries:
  "build_entries no_faults example_machine ''/'' (EXCLUDE_DIRS ''/root'')
   = [DirEntry ''etc'', FileEntry ''etc/hosts'' 1, DirEntry ''var'', DirEntry ''var/log'',
      FileEntry ''var/log/syslog'' 2, FileEntry ''var/big'' 3, FileEntry ''etc/hosts'' 1]"
  by (simp add: build_entries_def example_machine_def archive_entries_def example_root_def
      EXCLUDE_DIRS_def BACKUP_DIR_def archive_body_def add_directory_def add_file_def path_defs
      FILE_SIZE_LIMIT_def no_faults_def)

lemma example_name:
  "join (BACKUP_DIR (home example_machine)) (backup_name ''full_system'' example_time)
   = ''/root/BackupSystemBackups/full_system_20261103-090507.tar.gz''"
  by (simp add: example_machine_def example_time_def BACKUP_DIR_def join_def ends_with_sep_def
      backup_name_def strftime_def pad2_def pad4_def digit_def)

text \<open>
  Claim C7. Archiving a directory and extracting the archive into an empty directory should
  bring back only files that are outside the exclusion set and under the size cap. On the
  small machine a full-system backup succeeds and its restore into a new directory succeeds,
  and the restore directory then holds \<^verbatim>\<open>var/log/syslog\<close>, which lies under the excluded
  \<^verbatim>\<open>/var/log\<close>, and \<^verbatim>\<open>var/big\<close>, which is larger than the cap: both came in with
  the recursive addition of the directory \<^verbatim>\<open>/var\<close>.
\<close>

theorem full_backup_restores_excluded_and_oversized:
  "fst (full_system_backup no_faults example_machine example_time)
     = (True, ''Full system backup completed to ''
              @ ''/root/BackupSystemBackups/full_system_20261103-090507.tar.gz'')
   \<and> fst (restore_backup no_rfaults
            (last (snd (full_system_backup no_faults example_machine example_time)))
            ''/root/BackupSystemBackups/full_system_20261103-090507.tar.gz'' None)
       = (True, ''Restore completed successfully.'')
   \<and> restored (restore_backup no_rfaults
            (last (snd (full_system_backup no_faults example_machine example_time)))
            ''/root/BackupSystemBackups/full_system_20261103-090507.tar.gz'' None)
         ''var/log/syslog''
       = Some (OFile 2)
   \<and> path_excluded (excluded_normalized_paths (EXCLUDE_DIRS ''/root'')) ''/var/log/syslog''
   \<and> restored (restore_backup no_rfaults
            (last (snd (full_system_backup no_faults example_machine example_time)))
            ''/root/BackupSystemBackups/full_system_20261103-090507.tar.gz'' None)
         ''var/big''
       = Some (OFile 3)
   \<and> FILE_SIZE_LIMIT < 524288001"
proof -
  have nf: "first_fault no_faults = None"
    by (simp add: first_fault_def no_faults_def)
  have h: "home example_machine = ''/root''"
    by (simp add: example_machine_def)
  note fs = full_system_backup_ok[OF nf, of example_machine example_time, unfolded example_name]
  have st: "last (snd (full_system_backup no_faults example_machine example_time))
              ''/root/BackupSystemBackups/full_system_20261103-090507.tar.gz''
            = Some (Complete [DirEntry ''etc'', FileEntry ''etc/hosts'' 1, DirEntry ''var'',
                DirEntry ''var/log'', FileEntry ''var/log/syslog'' 2, FileEntry ''var/big'' 3,
                FileEntry ''etc/hosts'' 1])"
    using fs(2) example_entries h by simp
  have r: "restore_backup no_rfaults
             (last (snd (full_system_backup no_faults example_machine example_time)))
             ''/root/BackupSystemBackups/full_system_20261103-090507.tar.gz'' None
           = ((True, ''Restore completed successfully.''),
              Some (extract_members (\<lambda>i. False) 0 Map.empty
                [DirEntry ''etc'', FileEntry ''etc/hosts'' 1, DirEntry ''var'',
                 DirEntry ''var/log'', FileEntry ''var/log/syslog'' 2, FileEntry ''var/big'' 3,
                 FileEntry ''etc/hosts'' 1]))"
    using restore_complete[where st = "last (snd (full_system_backup no_faults example_machine
            example_time))" and rflt = no_rfaults, OF st]
    by (simp add: no_rfaults_def)
  have e: "path_excluded (excluded_normalized_paths (EXCLUDE_DIRS ''/root'')) ''/var/log/syslog''"
    by (simp add: EXCLUDE_DIRS_def BACKUP_DIR_def path_defs)
  show ?thesis
    unfolding r using fs(1) e by (simp add: restored_def tar_extract_def FILE_SIZE_LIMIT_def)
qed

subsection \<open>A source whose contents are all excluded\<close>












subsection \<open>A root that does not exist\<close>

lemma create_scanned:
  assumes "\<not> has_nul source_path"
  shows "fst (snd (create_tarball_with_progress flt m source_path dest_path exclude_dirs))
         = (case scan_directory (home m) source_path (tree m source_path) of
              Inl e \<Rightarrow> None | Inr scanned \<Rightarrow> Some scanned)"
  using assms
  by (auto simp: create_tarball_with_progress_def scan_directory_def Let_def split: prod.splits)

lemma create_raises_on_nul_path:
  assumes "has_nul source_path"
  shows "create_tarball_with_progress flt m source_path dest_path exclude_dirs
         = (Inl UnboundLocalError, None, [archives m])"
  using assms by (simp add: create_tarball_with_progress_def scan_directory_def)

text \<open>
  Claim C3, as stated: a build whose root does not exist fails before any archive or
  temporary file is created. \<^verbatim>\<open>create_tarball_with_progress\<close> does not test its root:
  on the small machine, for the missing root \<^verbatim>\<open>/nonexistent\<close>, it reports success and
  leaves a closed, empty archive at the destination.
\<close>

theorem build_accepts_missing_root:
  "tree example_machine ''/nonexistent'' = None
   \<and> fst (create_tarball_with_progress no_faults example_machine ''/nonexistent''
            ''/root/x.tar.gz'' [])
       = Inr (True, ''Tarball created at /root/x.tar.gz'')
   \<and> last (snd (snd (create_tarball_with_progress no_faults example_machine ''/nonexistent''
            ''/root/x.tar.gz'' []))) ''/root/x.tar.gz''
       = Some (Complete [])"
proof -
  have n: "\<not> has_nul ''/nonexistent''"
    by (simp add: has_nul_def)
  have nf: "first_fault no_faults = None"
    by (simp add: first_fault_def no_faults_def)
  have t: "tree example_machine ''/nonexistent'' = None"
    by (simp add: example_machine_def)
  then have "build_entries no_faults example_machine ''/nonexistent'' [] = []"
    by (simp add: build_entries_def archive_entries_def)
  then show ?thesis
    using t create_result[OF n, of no_faults example_machine "''/root/x.tar.gz''" "[]"]
      create_final[OF n nf, of example_machine "''/root/x.tar.gz''" "[]"] nf
    by (simp add: build_message_def)
qed

text \<open>
  Claim C3, amended. The test is made by \<^verbatim>\<open>specific_directory_backup\<close>: for a directory
  that does not exist it returns the failure \<^verbatim>\<open>Directory does not exist: <directory>\<close>
  at once, whatever would fail later, and the output directory goes through no other state
  than the one it is in. \<^verbatim>\<open>create_tarball_with_progress\<close> called on such a root, when
  the path has no NUL character, scans nothing, adds no member, and returns the pair that
  the faults of the output directory alone determine.
\<close>

theorem missing_directory_fails_in_specific_backup:
  assumes "\<not> path_exists m directory"
  shows "specific_directory_backup flt m now directory
           = (Inr (False, ''Directory does not exist: '' @ directory), [archives m])
         \<and> (\<not> has_nul directory \<longrightarrow>
              fst (snd (create_tarball_with_progress flt m directory dest_path exclude_dirs))
                = Some (0, 0, 0)
              \<and> build_entries flt m directory exclude_dirs = []
              \<and> fst (create_tarball_with_progress flt m directory dest_path exclude_dirs)
                  = Inr (build_message dest_path (first_fault flt)))"
proof -
  have "tree m directory = None" if "\<not> has_nul directory"
    using assms that by (simp add: path_exists_def)
  then show ?thesis
    using assms create_result[of directory flt m dest_path exclude_dirs]
      create_scanned[of directory flt m dest_path exclude_dirs]
    by (auto simp: specific_directory_backup_def build_entries_def archive_entries_def
        scan_directory_def)
qed

theorem missing_directory_fails_in_specific_backup_witness:
  "\<not> path_exists example_machine ''/nonexistent''
   \<and> specific_directory_backup no_faults example_machine example_time ''/nonexistent''
       = (Inr (False, ''Directory does not exist: /nonexistent''), [archives example_machine])
   \<and> fst (snd (create_tarball_with_progress no_faults example_machine ''/nonexistent''
                  ''/root/x.tar.gz'' [])) = Some (0, 0, 0)"
proof -
  have t: "\<not> path_exists example_machine ''/nonexistent''"
    by (simp add: path_exists_def example_machine_def)
  have n: "\<not> has_nul ''/nonexistent''"
    by (simp add: has_nul_def)
  from missing_directory_fails_in_specific_backup[OF t, of no_faults example_time
      "''/root/x.tar.gz''" "[]"] t n
  show ?thesis by simp
qed

subsection \<open>The two passes\<close>

text \<open>
  Claim C4. The scanning pass and the archiving pass of one backup should decide alike on
  every path, and in a specific-directory backup both should use the empty exclusion set.
  \<^verbatim>\<open>scan_directory\<close> always uses \<^verbatim>\<open>EXCLUDE_DIRS\<close>: in the specific-directory
  backup of \<^verbatim>\<open>/var\<close>, which builds with the empty exclusion list, the scan prunes
  \<^verbatim>\<open>/var/log\<close> and counts no directory and no file, while the archiving pass keeps the
  directory and adds it with its file; the backup reports success.
\<close>

theorem scan_and_archive_disagree_in_specific_backup:
  "path_excluded (excluded_normalized_paths (EXCLUDE_DIRS (home var_machine))) (join ''/var'' ''log'')
   \<and> \<not> path_excluded (excluded_normalized_paths []) (join ''/var'' ''log'')
   \<and> scan_directory (home var_machine) ''/var'' (tree var_machine ''/var'') = Inr (0, 0, 0)
   \<and> fst (snd (create_tarball_with_progress no_faults var_machine ''/var''
            (join (BACKUP_DIR (home var_machine)) (backup_name (basename ''/var'') example_time))
            []))
       = Some (0, 0, 0)
   \<and> fst (specific_directory_backup no_faults var_machine example_time ''/var'')
       = Inr (True, ''Specific directory backup completed to ''
                @ join (BACKUP_DIR (home var_machine))
                    (backup_name (basename ''/var'') example_time))
   \<and> last (snd (specific_directory_backup no_faults var_machine example_time ''/var''))
        (join (BACKUP_DIR (home var_machine)) (backup_name (basename ''/var'') example_time))
       = Some (Complete [DirEntry ''log'', FileEntry ''log/syslog'' 2,
                         FileEntry ''log/syslog'' 2])"
proof -
  define dest where
    "dest = join (BACKUP_DIR (home var_machine)) (backup_name (basename ''/var'') example_time)"
  have n: "\<not> has_nul ''/var''"
    by (simp add: has_nul_def)
  have nf: "first_fault no_faults = None"
    by (simp add: first_fault_def no_faults_def)
  have ex: "path_excluded (excluded_normalized_paths (EXCLUDE_DIRS (home var_machine)))
              (join ''/var'' ''log'')"
    "\<not> path_excluded (excluded_normalized_paths []) (join ''/var'' ''log'')"
    by (simp_all add: var_machine_def EXCLUDE_DIRS_def BACKUP_DIR_def path_defs)
  have sc: "scan_directory (home var_machine) ''/var'' (tree var_machine ''/var'')
            = Inr (0, 0, 0)"
    by (simp add: scan_directory_def has_nul_def var_machine_def scan_body_def add_totals_def
        scan_file_skipped_def EXCLUDE_DIRS_def BACKUP_DIR_def path_defs)
  have es: "build_entries no_faults var_machine ''/var'' []
            = [DirEntry ''log'', FileEntry ''log/syslog'' 2, FileEntry ''log/syslog'' 2]"
    by (simp add: build_entries_def var_machine_def archive_entries_def archive_body_def
        add_directory_def add_file_def path_defs FILE_SIZE_LIMIT_def no_faults_def)
  have pe: "path_exists var_machine ''/var''"
    by (simp add: path_exists_def has_nul_def var_machine_def)
  have res: "fst (create_tarball_with_progress no_faults var_machine ''/var'' dest [])
             = Inr (True, ''Tarball created at '' @ dest)"
    using create_result[OF n, of no_faults var_machine dest "[]"] nf
    by (simp add: build_message_def)
  have fin: "last (snd (snd (create_tarball_with_progress no_faults var_machine ''/var'' dest [])))
               dest
             = Some (Complete [DirEntry ''log'', FileEntry ''log/syslog'' 2,
                               FileEntry ''log/syslog'' 2])"
    using create_final[OF n nf, of var_machine dest "[]"] es by simp
  have tot: "fst (snd (create_tarball_with_progress no_faults var_machine ''/var'' dest []))
             = Some (0, 0, 0)"
    using create_scanned[OF n, of no_faults var_machine dest "[]"] sc by simp
  obtain scanned states
    where c: "create_tarball_with_progress no_faults var_machine ''/var'' dest []
              = (Inr (True, ''Tarball created at '' @ dest), scanned, states)"
    using res by (cases "create_tarball_with_progress no_faults var_machine ''/var'' dest []") auto
  have sdb: "specific_directory_backup no_faults var_machine example_time ''/var''
             = (Inr (True, ''Specific directory backup completed to '' @ dest), states)"
    using pe c by (simp add: specific_directory_backup_def dest_def[symmetric] Let_def)
  from fin c have "last states dest
                   = Some (Complete [DirEntry ''log'', FileEntry ''log/syslog'' 2,
                                     FileEntry ''log/syslog'' 2])"
    by simp
  with ex sc tot sdb show ?thesis
    unfolding dest_def by simp
qed

subsection \<open>Archive names\<close>

lemma digit_eq_iff: "digit a = digit b \<longleftrightarrow> a mod 10 = b mod 10"
proof -
  have d: "distinct ''0123456789''" by simp
  have "a mod 10 < length ''0123456789''" "b mod 10 < length ''0123456789''" by simp_all
  then show ?thesis
    unfolding digit_def using d nth_eq_iff_index_eq by blast
qed

lemma div_mod_10_eq: "x div 10 = y div 10 \<Longrightarrow> x mod 10 = y mod 10 \<Longrightarrow> x = (y::nat)"
  by (metis div_mult_mod_eq)

lemma pad2_eq_iff:
  assumes "a < 100" "b < 100"
  shows "pad2 a = pad2 b \<longleftrightarrow> a = b"
proof
  assume "pad2 a = pad2 b"
  then have h: "a div 10 mod 10 = b div 10 mod 10" "a mod 10 = b mod 10"
    by (simp_all add: pad2_def digit_eq_iff)
  have "a div 10 < 10" "b div 10 < 10" using assms by simp_all
  with h(1) have "a div 10 = b div 10" by simp
  then show "a = b" using h(2) by (rule div_mod_10_eq)
qed simp

lemma pad4_eq_iff:
  assumes "a < 10000" "b < 10000"
  shows "pad4 a = pad4 b \<longleftrightarrow> a = b"
proof
  assume "pad4 a = pad4 b"
  then have h: "a div 1000 mod 10 = b div 1000 mod 10" "a div 100 mod 10 = b div 100 mod 10"
    "a div 10 mod 10 = b div 10 mod 10" "a mod 10 = b mod 10"
    by (simp_all add: pad4_def digit_eq_iff)
  have "a div 1000 < 10" "b div 1000 < 10" using assms by simp_all
  with h(1) have "a div 1000 = b div 1000" by simp
  then have "a div 100 div 10 = b div 100 div 10" by (simp add: div_mult2_eq[symmetric])
  then have "a div 100 = b div 100" using h(2) by (rule div_mod_10_eq)
  then have "a div 10 div 10 = b div 10 div 10" by (simp add: div_mult2_eq[symmetric])
  then have "a div 10 = b div 10" using h(3) by (rule div_mod_10_eq)
  then show "a = b" using h(4) by (rule div_mod_10_eq)
qed simp

lemma length_strftime: "length (strftime t) = 15"
  by (simp add: strftime_def pad2_def pad4_def)

lemma strftime_eq_iff:
  assumes "valid_datetime t" "valid_datetime u"
  shows "strftime t = strftime u \<longleftrightarrow> same_second t u"
proof -
  have l2: "length (pad2 a) = length (pad2 b)" for a b by (simp add: pad2_def)
  have l4: "length (pad4 a) = length (pad4 b)" for a b by (simp add: pad4_def)
  have "strftime t = strftime u \<longleftrightarrow>
        pad4 (year t) = pad4 (year u) \<and> pad2 (month t) = pad2 (month u) \<and> pad2 (day t) = pad2 (day u)
        \<and> pad2 (hour t) = pad2 (hour u) \<and> pad2 (minute t) = pad2 (minute u)
        \<and> pad2 (second t) = pad2 (second u)"
    unfolding strftime_def by (simp add: l2 l4)
  also have "\<dots> \<longleftrightarrow> same_second t u"
    using assms unfolding same_second_def valid_datetime_def
    by (simp add: pad2_eq_iff pad4_eq_iff)
  finally show ?thesis .
qed

text \<open>
  Claim C9, as stated: the names of repeated invocations never collide. Two full-system
  backups half a second apart get the same name, and so do the backups of two directories
  with the same base name.
\<close>

theorem backup_names_collide_within_a_second:
  "example_time \<noteq> example_time\<lparr>microsecond := 500000\<rparr>
   \<and> backup_name ''full_system'' example_time
       = backup_name ''full_system'' (example_time\<lparr>microsecond := 500000\<rparr>)
   \<and> ''/srv/data'' \<noteq> ''/home/data''
   \<and> backup_name (basename ''/srv/data'') example_time
       = backup_name (basename ''/home/data'') (example_time\<lparr>microsecond := 500000\<rparr>)"
  by (simp add: example_time_def backup_name_def strftime_def basename_def)

text \<open>
  Claim C9, amended. Two invocations get the same archive name exactly when their subjects
  (\<^verbatim>\<open>full_system\<close>, or the base name of the directory) are equal and their instants
  fall in the same second; names of invocations in different seconds, or on different
  subjects, differ.
\<close>

theorem backup_names_collide_iff:
  assumes "valid_datetime t" "valid_datetime u"
  shows "backup_name subject t = backup_name subject' u \<longleftrightarrow> subject = subject' \<and> same_second t u"
proof -
  have "backup_name subject t = backup_name subject' u
        \<longleftrightarrow> subject = subject' \<and> strftime t = strftime u"
  proof
    assume eq: "backup_name subject t = backup_name subject' u"
    then have "length (backup_name subject t) = length (backup_name subject' u)" by simp
    then have "length subject = length subject'"
      by (simp add: backup_name_def length_strftime)
    with eq show "subject = subject' \<and> strftime t = strftime u"
      by (simp add: backup_name_def)
  qed (simp add: backup_name_def)
  then show ?thesis using strftime_eq_iff[OF assms] by simp
qed

theorem backup_names_collide_iff_witness:
  "valid_datetime example_time \<and> valid_datetime (example_time\<lparr>second := 8\<rparr>)
   \<and> backup_name ''full_system'' example_time
       \<noteq> backup_name ''full_system'' (example_time\<lparr>second := 8\<rparr>)"
proof -
  have v: "valid_datetime example_time" "valid_datetime (example_time\<lparr>second := 8\<rparr>)"
    by (simp_all add: valid_datetime_def example_time_def)
  have "\<not> same_second example_time (example_time\<lparr>second := 8\<rparr>)"
    by (simp add: same_second_def example_time_def)
  with backup_names_collide_iff[OF v, of "''full_system''" "''full_system''"] v
  show ?thesis by simp
qed

lemmas sched_defs = auto_backup_scheduler_def install_and_start_def signal_and_join_def
  stop_previous_def late_exit_def start_runner_def
  thread_is_alive_def load_config_def save_config_def usable_dir_def make_job_def

lemmas strptime_defs = strptime_HM_def hour_ok_def minute_ok_def is_digit_def

subsection \<open>Loading the configuration\<close>

text \<open>
  Claim C10, as stated: \<^verbatim>\<open>load_config\<close> always returns a structurally complete
  record. A file that holds the empty object is parsed and returned as it is, without any
  of the five keys.
\<close>

theorem load_config_returns_incomplete_object:
  "\<not> structurally_complete (fst (load_config no_cfaults ''/root'' (Holds empty_config)))"
  by (simp add: load_config_def no_cfaults_def empty_config_def structurally_complete_def)

text \<open>
  Claim C10, amended. \<^verbatim>\<open>load_config\<close> returns in every state of the file and under
  every fault of writing and reading it. For a missing file it returns the default
  configuration; for an unparseable file it returns the default configuration and leaves
  the file as it is; for a file that holds an object it returns that object as parsed (the
  default configuration when the file cannot be read) and leaves the file as it is. The
  default configuration is structurally complete, so the result is complete whenever the
  stored object is.
\<close>

theorem load_config_total:
  "(case stored of
      Absent \<Rightarrow> fst (load_config cf home_dir stored) = DEFAULT_CONFIG home_dir
    | Malformed \<Rightarrow> load_config cf home_dir stored = (DEFAULT_CONFIG home_dir, Malformed)
    | Holds c \<Rightarrow> load_config cf home_dir stored
                  = (if read_fails cf then DEFAULT_CONFIG home_dir else c, Holds c))
   \<and> structurally_complete (DEFAULT_CONFIG home_dir)"
  by (cases stored; cases "on_save cf")
     (simp_all add: load_config_def save_config_def structurally_complete_def DEFAULT_CONFIG_def
        Let_def)

theorem load_config_total_witness:
  "load_config \<lparr>on_save = Saved, read_fails = False\<rparr> ''/root'' Malformed
     = (DEFAULT_CONFIG ''/root'', Malformed)
   \<and> structurally_complete (DEFAULT_CONFIG ''/root'')"
  using load_config_total[where stored = Malformed and home_dir = "''/root''"
      and cf = "\<lparr>on_save = Saved, read_fails = False\<rparr>"]
  by simp

subsection \<open>Reconfiguring the scheduler\<close>

text \<open>
  Claim C5, as stated: on an invalid configuration the previous runner has been torn down
  when the failure is reported. With the frequency \<^verbatim>\<open>fortnightly\<close> and a runner that
  does not end within the five seconds of the wait, the call returns \<^verbatim>\<open>False\<close>
  while the runner is alive, and the stop event is cleared again.
\<close>

theorem rejected_config_leaves_runner_alive:
  "fst (auto_backup_scheduler stuck_env ''/root''
          (running_scheduler (Holds (nightly_config\<lparr>frequency := Some ''fortnightly''\<rparr>))))
     = Inr False
   \<and> 0 \<in> alive (last (snd (auto_backup_scheduler stuck_env ''/root''
          (running_scheduler (Holds (nightly_config\<lparr>frequency := Some ''fortnightly''\<rparr>))))))
   \<and> \<not> stop_scheduler_event (last (snd (auto_backup_scheduler stuck_env ''/root''
          (running_scheduler (Holds (nightly_config\<lparr>frequency := Some ''fortnightly''\<rparr>))))))"
  by (simp add: sched_defs stuck_env_def running_scheduler_def nightly_config_def no_cfaults_def
      Let_def)

lemma stop_previous_fields:
  "scheduler_thread (stop_previous e s) = scheduler_thread s"
  "threads_started (stop_previous e s) = threads_started s"
  "jobs (stop_previous e s) = jobs s"
  "config_file (stop_previous e s) = config_file s"
  "\<not> stop_scheduler_event (stop_previous e s)"
  "alive (stop_previous e s)
     = (if thread_is_alive s \<and> exits_on_join e
        then alive s - (case scheduler_thread s of None \<Rightarrow> {} | Some t \<Rightarrow> {t}) else alive s)"
  by (auto simp: stop_previous_def signal_and_join_def thread_is_alive_def Let_def
      split: option.splits)

lemma stop_previous_alive: "thread_is_alive (stop_previous e s) \<longleftrightarrow> thread_is_alive s \<and> \<not> exits_on_join e"
  by (auto simp: stop_previous_def signal_and_join_def thread_is_alive_def Let_def
      split: option.splits)

lemma scheduler_call_cases:
  assumes "load_config (config_faults e) home_dir (config_file s) = (cfg, stored)"
  shows "(fst (auto_backup_scheduler e home_dir s) \<noteq> Inr True
          \<and> snd (auto_backup_scheduler e home_dir s)
            = signal_and_join e s
              @ [stop_previous e s, (stop_previous e s)\<lparr>config_file := stored, jobs := []\<rparr>])
         \<or> (\<exists>knd freq t.
              fst (auto_backup_scheduler e home_dir s) = Inr True
              \<and> backup_type cfg = Some knd \<and> frequency cfg = Some freq \<and> time cfg = Some t
              \<and> snd (auto_backup_scheduler e home_dir s)
                = signal_and_join e s
                  @ [stop_previous e s, (stop_previous e s)\<lparr>config_file := stored, jobs := []\<rparr>]
                  @ install_and_start e ((stop_previous e s)\<lparr>config_file := stored, jobs := []\<rparr>)
                      (make_job cfg knd freq t))"
  unfolding auto_backup_scheduler_def Let_def stop_previous_fields(4) assms prod.case
  by (simp split: option.splits)

lemma scheduler_call_rejected:
  assumes "load_config (config_faults e) home_dir (config_file s) = (cfg, stored)"
      and "rejected e cfg"
  shows "auto_backup_scheduler e home_dir s
         = (Inr False,
            signal_and_join e s
            @ [stop_previous e s, (stop_previous e s)\<lparr>config_file := stored, jobs := []\<rparr>])"
  using assms(2)
  unfolding auto_backup_scheduler_def Let_def stop_previous_fields(4) assms(1) prod.case
    rejected_def
  by (auto split: option.splits)

text \<open>
  Claim C5, amended. For every configuration that the validation rejects (the kind, the
  directory of a specific backup, the frequency, or a time string that does not parse),
  the call returns \<^verbatim>\<open>False\<close>, leaves no job registered, starts no thread and keeps
  the thread the module knows; no thread is alive that was not alive before, and the
  previous runner is not alive when it ended within the wait.
\<close>

theorem rejected_config_starts_nothing:
  assumes "fst (load_config (config_faults e) home_dir (config_file s)) = cfg"
      and "rejected e cfg"
  shows "fst (auto_backup_scheduler e home_dir s) = Inr False
         \<and> jobs (last (snd (auto_backup_scheduler e home_dir s))) = []
         \<and> alive (last (snd (auto_backup_scheduler e home_dir s))) \<subseteq> alive s
         \<and> threads_started (last (snd (auto_backup_scheduler e home_dir s))) = threads_started s
         \<and> scheduler_thread (last (snd (auto_backup_scheduler e home_dir s))) = scheduler_thread s
         \<and> (exits_on_join e \<longrightarrow>
              \<not> thread_is_alive (last (snd (auto_backup_scheduler e home_dir s))))"
proof -
  obtain stored where l: "load_config (config_faults e) home_dir (config_file s) = (cfg, stored)"
    using assms(1) by (cases "load_config (config_faults e) home_dir (config_file s)") auto
  have j: "exits_on_join e \<Longrightarrow> \<not> thread_is_alive (stop_previous e s)"
    by (simp add: stop_previous_alive)
  show ?thesis
    unfolding scheduler_call_rejected[OF l assms(2)] using j
    by (auto simp: stop_previous_fields thread_is_alive_def split: option.splits if_splits)
qed

theorem rejected_config_starts_nothing_witness:
  "rejected stuck_env (nightly_config\<lparr>time := Some ''25:99''\<rparr>)
   \<and> fst (auto_backup_scheduler stuck_env ''/root''
            (running_scheduler (Holds (nightly_config\<lparr>time := Some ''25:99''\<rparr>)))) = Inr False
   \<and> jobs (last (snd (auto_backup_scheduler stuck_env ''/root''
            (running_scheduler (Holds (nightly_config\<lparr>time := Some ''25:99''\<rparr>)))))) = []"
proof -
  have l: "fst (load_config (config_faults stuck_env) ''/root''
            (config_file (running_scheduler (Holds (nightly_config\<lparr>time := Some ''25:99''\<rparr>)))))
           = nightly_config\<lparr>time := Some ''25:99''\<rparr>"
    by (simp add: load_config_def stuck_env_def no_cfaults_def running_scheduler_def)
  have r: "rejected stuck_env (nightly_config\<lparr>time := Some ''25:99''\<rparr>)"
    by (simp add: rejected_def nightly_config_def strptime_defs)
  from rejected_config_starts_nothing[OF l r] r show ?thesis by simp
qed

text \<open>
  Claim C6, as stated: the previous runner is fully stopped and joined before the new
  trigger is installed. When the runner does not end within the wait, the call goes on: the
  runner is alive in every state of the call, the new job is registered beside it, and it
  stays the thread of the module.
\<close>

theorem trigger_installed_beside_live_runner:
  "fst (auto_backup_scheduler stuck_env ''/root'' (running_scheduler (Holds nightly_config)))
     = Inr True
   \<and> list_all (\<lambda>s. 0 \<in> alive s)
       (snd (auto_backup_scheduler stuck_env ''/root'' (running_scheduler (Holds nightly_config))))
   \<and> jobs (last (snd (auto_backup_scheduler stuck_env ''/root''
        (running_scheduler (Holds nightly_config)))))
       = [make_job nightly_config ''full'' ''daily'' ''02:30'']
   \<and> scheduler_thread (last (snd (auto_backup_scheduler stuck_env ''/root''
        (running_scheduler (Holds nightly_config))))) = Some 0"
  by (simp add: sched_defs stuck_env_def running_scheduler_def nightly_config_def no_cfaults_def
      Let_def strptime_defs)

lemma inv_updates [simp]:
  "at_most_one_runner (s\<lparr>jobs := js\<rparr>) = at_most_one_runner s"
  "at_most_one_runner (s\<lparr>config_file := f\<rparr>) = at_most_one_runner s"
  "at_most_one_runner (s\<lparr>stop_scheduler_event := b\<rparr>) = at_most_one_runner s"
  by (simp_all add: at_most_one_runner_def split: option.splits)

lemma signal_and_join_inv:
  "one_runner_one_job s \<Longrightarrow> list_all one_runner_one_job (signal_and_join e s)"
  by (auto simp: one_runner_one_job_def at_most_one_runner_def signal_and_join_def Let_def
      split: option.splits)

lemma stop_previous_runner: "at_most_one_runner s \<Longrightarrow> at_most_one_runner (stop_previous e s)"
  by (auto simp: at_most_one_runner_def stop_previous_def signal_and_join_def Let_def
      split: option.splits)

lemma late_exit_runner: "at_most_one_runner s \<Longrightarrow> at_most_one_runner (late_exit e s)"
  by (auto simp: at_most_one_runner_def late_exit_def split: option.splits)

lemma late_exit_jobs: "jobs (late_exit e s) = jobs s"
  by (auto simp: late_exit_def split: option.splits)

lemma start_runner_runner:
  "at_most_one_runner s \<Longrightarrow> \<not> thread_is_alive s \<Longrightarrow> at_most_one_runner (start_runner s)"
  by (auto simp: at_most_one_runner_def start_runner_def thread_is_alive_def
      split: option.splits)

lemma start_runner_jobs: "jobs (start_runner s) = jobs s"
  by (simp add: start_runner_def)

lemma install_and_start_inv:
  assumes "at_most_one_runner s2" and "jobs s2 = []"
  shows "list_all one_runner_one_job (install_and_start e s2 j)"
  using assms late_exit_runner[of "s2\<lparr>jobs := [j]\<rparr>" e]
    start_runner_runner[of "late_exit e (s2\<lparr>jobs := [j]\<rparr>)"]
  by (auto simp: install_and_start_def Let_def one_runner_one_job_def late_exit_jobs
      start_runner_jobs)

lemma install_and_start_last:
  assumes "at_most_one_runner s2" and "jobs s2 = []"
  shows "install_and_start e s2 j \<noteq> []"
    and "jobs (last (install_and_start e s2 j)) = [j]"
    and "thread_is_alive (last (install_and_start e s2 j))"
    and "stop_scheduler_event (last (install_and_start e s2 j)) = stop_scheduler_event s2"
    and "thread_is_alive s2 \<and> \<not> exits_late e \<Longrightarrow>
           scheduler_thread (last (install_and_start e s2 j)) = scheduler_thread s2
           \<and> alive (last (install_and_start e s2 j)) = alive s2
           \<and> threads_started (last (install_and_start e s2 j)) = threads_started s2"
    and "\<not> (thread_is_alive s2 \<and> \<not> exits_late e) \<Longrightarrow>
           scheduler_thread (last (install_and_start e s2 j)) = Some (threads_started s2)
           \<and> alive (last (install_and_start e s2 j)) = {threads_started s2}
           \<and> threads_started (last (install_and_start e s2 j)) = Suc (threads_started s2)"
  using assms
  by (auto simp: install_and_start_def Let_def late_exit_def start_runner_def
      thread_is_alive_def at_most_one_runner_def split: option.splits)

lemma scheduler_call_inv:
  assumes "one_runner_one_job s"
  shows "list_all one_runner_one_job (snd (auto_backup_scheduler e home_dir s))"
proof -
  obtain cfg stored
    where l: "load_config (config_faults e) home_dir (config_file s) = (cfg, stored)"
    by (cases "load_config (config_faults e) home_dir (config_file s)")
  have r: "at_most_one_runner (stop_previous e s)"
    using assms by (simp add: one_runner_one_job_def stop_previous_runner)
  have i0: "list_all one_runner_one_job (signal_and_join e s)"
    using assms by (rule signal_and_join_inv)
  have i1: "one_runner_one_job (stop_previous e s)"
    using assms r by (simp add: one_runner_one_job_def stop_previous_fields)
  have i2: "one_runner_one_job ((stop_previous e s)\<lparr>config_file := stored, jobs := []\<rparr>)"
    using r by (simp add: one_runner_one_job_def)
  have i3: "list_all one_runner_one_job
      (install_and_start e ((stop_previous e s)\<lparr>config_file := stored, jobs := []\<rparr>) j)" for j
    using r by (intro install_and_start_inv) simp_all
  from scheduler_call_cases[OF l] show ?thesis
    using i0 i1 i2 i3 by auto
qed

lemma scheduler_states_nonempty: "snd (auto_backup_scheduler e home_dir s) \<noteq> []"
proof -
  obtain cfg stored
    where l: "load_config (config_faults e) home_dir (config_file s) = (cfg, stored)"
    by (cases "load_config (config_faults e) home_dir (config_file s)")
  from scheduler_call_cases[OF l] show ?thesis by auto
qed

lemma reconfigure_inv:
  "one_runner_one_job s \<Longrightarrow> list_all one_runner_one_job (reconfigure steps home_dir s)"
proof (induction steps arbitrary: s)
  case Nil
  then show ?case by simp
next
  case (Cons step steps)
  obtain e written where step: "step = (e, written)" by (cases step)
  define s0 where "s0 = (case written of None \<Rightarrow> s | Some f \<Rightarrow> s\<lparr>config_file := f\<rparr>)"
  have i0: "one_runner_one_job s0"
    using Cons.prems
    by (auto simp: s0_def one_runner_one_job_def at_most_one_runner_def split: option.splits)
  have all: "list_all one_runner_one_job (snd (auto_backup_scheduler e home_dir s0))"
    using i0 by (rule scheduler_call_inv)
  have "one_runner_one_job (last (s0 # snd (auto_backup_scheduler e home_dir s0)))"
    using all scheduler_states_nonempty[of e home_dir s0] by (auto simp: list_all_iff)
  from Cons.IH[OF this] all i0 show ?case
    unfolding step by (simp add: s0_def Let_def)
qed

text \<open>
  Claim C6, amended. Take any state of the module with at most one runner alive, the
  thread the module knows, and at most one job, and any call of
  \<^verbatim>\<open>auto_backup_scheduler\<close>. When the previous runner is alive the call begins by
  setting the stop event and waiting for the runner, which is gone after the wait exactly
  when it ended in time; in both cases the call goes on and leaves the event cleared. In
  every state of the call at most one runner is alive and at most one job is registered.
  When the call returns \<^verbatim>\<open>True\<close>, the job table holds the one job of the loaded
  configuration and a runner is alive: the previous one, kept without starting a thread,
  when it is still alive, and otherwise one new thread, the only one alive. The same bound on runners and
  jobs holds in every state of every sequence of reconfigurations that starts with no
  runner and no job.
\<close>

theorem reconfiguration_keeps_one_runner:
  assumes "one_runner_one_job s"
  shows "list_all (\<lambda>s'. at_most_one_runner s' \<and> length (jobs s') \<le> 1)
           (snd (auto_backup_scheduler e home_dir s))
         \<and> (\<forall>t. scheduler_thread s = Some t \<and> t \<in> alive s \<longrightarrow>
              (\<exists>rest. snd (auto_backup_scheduler e home_dir s)
                 = s\<lparr>stop_scheduler_event := True\<rparr>
                   # (if exits_on_join e
                      then s\<lparr>stop_scheduler_event := True, alive := alive s - {t}\<rparr>
                      else s\<lparr>stop_scheduler_event := True\<rparr>)
                   # rest))
         \<and> \<not> stop_scheduler_event (last (snd (auto_backup_scheduler e home_dir s)))
         \<and> (fst (auto_backup_scheduler e home_dir s) = Inr True \<longrightarrow>
              (\<exists>knd freq t.
                 backup_type (fst (load_config (config_faults e) home_dir (config_file s)))
                   = Some knd
                 \<and> frequency (fst (load_config (config_faults e) home_dir (config_file s)))
                   = Some freq
                 \<and> time (fst (load_config (config_faults e) home_dir (config_file s))) = Some t
                 \<and> jobs (last (snd (auto_backup_scheduler e home_dir s)))
                   = [make_job (fst (load_config (config_faults e) home_dir (config_file s)))
                        knd freq t])
              \<and> thread_is_alive (last (snd (auto_backup_scheduler e home_dir s)))
              \<and> (if thread_is_alive s \<and> \<not> exits_on_join e \<and> \<not> exits_late e
                  then scheduler_thread (last (snd (auto_backup_scheduler e home_dir s)))
                         = scheduler_thread s
                       \<and> alive (last (snd (auto_backup_scheduler e home_dir s))) = alive s
                       \<and> threads_started (last (snd (auto_backup_scheduler e home_dir s)))
                         = threads_started s
                  else scheduler_thread (last (snd (auto_backup_scheduler e home_dir s)))
                         = Some (threads_started s)
                       \<and> alive (last (snd (auto_backup_scheduler e home_dir s)))
                         = {threads_started s}
                       \<and> threads_started (last (snd (auto_backup_scheduler e home_dir s)))
                         = Suc (threads_started s)))
         \<and> list_all (\<lambda>s'. at_most_one_runner s' \<and> length (jobs s') \<le> 1)
             (reconfigure steps home_dir (initial_scheduler f))"
proof -
  let ?r = "auto_backup_scheduler e home_dir s"
  obtain cfg stored
    where l: "load_config (config_faults e) home_dir (config_file s) = (cfg, stored)"
    by (cases "load_config (config_faults e) home_dir (config_file s)")
  define s2 where "s2 = (stop_previous e s)\<lparr>config_file := stored, jobs := []\<rparr>"
  have r2: "at_most_one_runner s2" and j2: "jobs s2 = []"
    using assms by (simp_all add: s2_def one_runner_one_job_def stop_previous_runner)
  have a2: "thread_is_alive s2 \<longleftrightarrow> thread_is_alive s \<and> \<not> exits_on_join e"
  proof -
    have "thread_is_alive s2 = thread_is_alive (stop_previous e s)"
      by (simp add: s2_def thread_is_alive_def split: option.splits)
    then show ?thesis by (simp add: stop_previous_alive)
  qed
  have f2: "scheduler_thread s2 = scheduler_thread s" "threads_started s2 = threads_started s"
    "\<not> stop_scheduler_event s2"
    by (simp_all add: s2_def stop_previous_fields)
  have al2: "thread_is_alive s \<and> \<not> exits_on_join e \<Longrightarrow> alive s2 = alive s"
    by (simp add: s2_def stop_previous_fields)
  note cases = scheduler_call_cases[OF l, folded s2_def]
  have c1: "list_all (\<lambda>s'. at_most_one_runner s' \<and> length (jobs s') \<le> 1) (snd ?r)"
    using scheduler_call_inv[OF assms, of e home_dir]
    by (simp add: one_runner_one_job_def[abs_def])
  have c2: "\<exists>rest. snd ?r
                 = s\<lparr>stop_scheduler_event := True\<rparr>
                   # (if exits_on_join e
                      then s\<lparr>stop_scheduler_event := True, alive := alive s - {t}\<rparr>
                      else s\<lparr>stop_scheduler_event := True\<rparr>)
                   # rest"
    if "scheduler_thread s = Some t \<and> t \<in> alive s" for t
  proof -
    from that have "signal_and_join e s
        = [s\<lparr>stop_scheduler_event := True\<rparr>,
           if exits_on_join e then s\<lparr>stop_scheduler_event := True, alive := alive s - {t}\<rparr>
           else s\<lparr>stop_scheduler_event := True\<rparr>]"
      by (simp add: signal_and_join_def Let_def)
    with cases show ?thesis by auto
  qed
  have c3: "\<not> stop_scheduler_event (last (snd ?r))"
    using cases install_and_start_last(1,4)[OF r2 j2] f2(3) by auto
  have c4: "(\<exists>knd freq t. backup_type cfg = Some knd \<and> frequency cfg = Some freq
                \<and> time cfg = Some t \<and> jobs (last (snd ?r)) = [make_job cfg knd freq t])
            \<and> thread_is_alive (last (snd ?r))
            \<and> (if thread_is_alive s \<and> \<not> exits_on_join e \<and> \<not> exits_late e
                then scheduler_thread (last (snd ?r)) = scheduler_thread s
                     \<and> alive (last (snd ?r)) = alive s
                     \<and> threads_started (last (snd ?r)) = threads_started s
                else scheduler_thread (last (snd ?r)) = Some (threads_started s)
                     \<and> alive (last (snd ?r)) = {threads_started s}
                     \<and> threads_started (last (snd ?r)) = Suc (threads_started s))"
    if "fst ?r = Inr True"
  proof -
    from cases that obtain knd freq t
      where k: "backup_type cfg = Some knd" "frequency cfg = Some freq" "time cfg = Some t"
        and st: "snd ?r = signal_and_join e s @ [stop_previous e s, s2]
                   @ install_and_start e s2 (make_job cfg knd freq t)"
      by auto
    let ?j = "make_job cfg knd freq t"
    have la: "last (snd ?r) = last (install_and_start e s2 ?j)"
      unfolding st using install_and_start_last(1)[OF r2 j2] by simp
    show ?thesis
    proof (cases "thread_is_alive s \<and> \<not> exits_on_join e \<and> \<not> exits_late e")
      case True
      then have "thread_is_alive s2 \<and> \<not> exits_late e" using a2 by simp
      from install_and_start_last(5)[OF r2 j2 this, of ?j]
        install_and_start_last(2,3)[OF r2 j2, of e ?j] True k
      show ?thesis unfolding la by (simp add: f2 al2)
    next
      case False
      then have "\<not> (thread_is_alive s2 \<and> \<not> exits_late e)" using a2 by simp
      from install_and_start_last(6)[OF r2 j2 this, of ?j]
        install_and_start_last(2,3)[OF r2 j2, of e ?j] False k
      show ?thesis unfolding la by (simp add: f2)
    qed
  qed
  have "one_runner_one_job (initial_scheduler f)"
    by (simp add: one_runner_one_job_def at_most_one_runner_def initial_scheduler_def)
  from reconfigure_inv[OF this, of steps home_dir]
  have c5: "list_all (\<lambda>s'. at_most_one_runner s' \<and> length (jobs s') \<le> 1)
              (reconfigure steps home_dir (initial_scheduler f))"
    by (simp add: one_runner_one_job_def[abs_def])
  show ?thesis
    using c1 c2 c3 c4 c5 l by simp
qed

theorem reconfiguration_keeps_one_runner_witness:
  "one_runner_one_job (running_scheduler (Holds nightly_config))
   \<and> hd (snd (auto_backup_scheduler stuck_env ''/root'' (running_scheduler (Holds nightly_config))))
       = (running_scheduler (Holds nightly_config))\<lparr>stop_scheduler_event := True\<rparr>
   \<and> scheduler_thread (last (snd (auto_backup_scheduler stuck_env ''/root''
        (running_scheduler (Holds nightly_config))))) = Some 0
   \<and> alive (last (snd (auto_backup_scheduler stuck_env ''/root''
        (running_scheduler (Holds nightly_config))))) = {0}
   \<and> \<not> stop_scheduler_event (last (snd (auto_backup_scheduler stuck_env ''/root''
        (running_scheduler (Holds nightly_config)))))"
proof -
  have i: "one_runner_one_job (running_scheduler (Holds nightly_config))"
    by (simp add: one_runner_one_job_def at_most_one_runner_def running_scheduler_def)
  have t: "fst (auto_backup_scheduler stuck_env ''/root''
             (running_scheduler (Holds nightly_config))) = Inr True"
    by (simp add: sched_defs stuck_env_def running_scheduler_def nightly_config_def
        no_cfaults_def Let_def strptime_defs)
  have a: "thread_is_alive (running_scheduler (Holds nightly_config))"
    "scheduler_thread (running_scheduler (Holds nightly_config)) = Some 0"
    "alive (running_scheduler (Holds nightly_config)) = {0}"
    "\<not> exits_on_join stuck_env" "\<not> exits_late stuck_env"
    by (simp_all add: thread_is_alive_def running_scheduler_def stuck_env_def)
  note th = reconfiguration_keeps_one_runner[OF i, of stuck_env "''/root''" "[]"
      "Holds nightly_config"]
  have "\<exists>rest. snd (auto_backup_scheduler stuck_env ''/root''
               (running_scheduler (Holds nightly_config)))
          = (running_scheduler (Holds nightly_config))\<lparr>stop_scheduler_event := True\<rparr> # rest"
    using th[THEN conjunct2, THEN conjunct1, THEN spec, of 0] a by auto
  then have h: "hd (snd (auto_backup_scheduler stuck_env ''/root''
                   (running_scheduler (Holds nightly_config))))
          = (running_scheduler (Holds nightly_config))\<lparr>stop_scheduler_event := True\<rparr>"
    by auto
  have k: "scheduler_thread (last (snd (auto_backup_scheduler stuck_env ''/root''
             (running_scheduler (Holds nightly_config))))) = Some 0
           \<and> alive (last (snd (auto_backup_scheduler stuck_env ''/root''
             (running_scheduler (Holds nightly_config))))) = {0}"
    using th[THEN conjunct2, THEN conjunct2, THEN conjunct2, THEN conjunct1, THEN mp, OF t,
        THEN conjunct2, THEN conjunct2] a
    by simp
  from i h k th[THEN conjunct2, THEN conjunct2, THEN conjunct1] show ?thesis by simp
qed

end
